theory Spec2Isabelle
  imports Main "HOL-Library.Sublist"
begin

section \<open>The ranking table script\<close>

text \<open>
  The program is \<^verbatim>\<open>static/js/script.js\<close>:
  \<^verbatim>\<open>
  fetch("/data")
    .then(res => res.json())
    .then(data => {
      let table = document.getElementById("ranking");
      data.forEach(row => {
        let tr = document.createElement("tr");
        row.forEach(cell => {
          let td = document.createElement("td");
          td.innerText = cell;
          tr.appendChild(td);
        });
        table.appendChild(tr);
      });
    });
  \<close>
  It runs in a browser. The script itself is embedded statement by statement; the
  browser operations it calls (\<^verbatim>\<open>fetch\<close>, \<^verbatim>\<open>Response.json\<close>,
  \<^verbatim>\<open>getElementById\<close>, \<^verbatim>\<open>createElement\<close>, \<^verbatim>\<open>appendChild\<close>, the
  \<^verbatim>\<open>innerText\<close> setter, \<^verbatim>\<open>Array.prototype.forEach\<close> and the conversion of a
  value to a string) are modelled after their standards (Fetch, DOM, HTML, ECMAScript), each
  with the part of its behaviour that this script can reach. The built-in objects are taken
  as the standards define them (no other script has replaced \<^verbatim>\<open>fetch\<close> or
  \<^verbatim>\<open>Array.prototype.forEach\<close>), and the element found under \<^verbatim>\<open>ranking\<close> is an
  ordinary element whose \<^verbatim>\<open>appendChild\<close> is the one of the DOM.
\<close>

subsection \<open>JavaScript values that \<^verbatim>\<open>res.json()\<close> can produce\<close>

text \<open>
  A parsed JSON body is null, a boolean, a number, a string, an array or an object. JSON
  numbers are IEEE doubles whose text form is computed by the engine; the number type is
  left as the parameter \<open>'n\<close> and the engine's Number-to-string conversion as the
  parameter \<open>nts\<close> of every function that needs it.
\<close>

datatype 'n json =
    JNull
  | JBool bool
  | JNum 'n
  | JStr string
  | JArr "'n json list"
  | JObj "(string \<times> 'n json) list"

text \<open>\<^verbatim>\<open>Array.prototype.join\<close> on strings already converted.\<close>

fun join :: "string \<Rightarrow> string list \<Rightarrow> string" where
  "join sep [] = []"
| "join sep [x] = x"
| "join sep (x # y # ys) = x @ sep @ join sep (y # ys)"

text \<open>
  ECMAScript \<^verbatim>\<open>ToString\<close> on such a value; \<open>None\<close> when the conversion throws a
  TypeError. An array converts through \<^verbatim>\<open>Array.prototype.toString\<close>, that is
  \<^verbatim>\<open>join(",")\<close>, where a null element gives the empty string and any other element is
  converted in turn. An object converts through its \<^verbatim>\<open>toString\<close> property: a parsed
  object inherits \<^verbatim>\<open>Object.prototype.toString\<close>, which gives \<^verbatim>\<open>[object Object]\<close>,
  unless the JSON text gave it an entry named \<^verbatim>\<open>toString\<close> of its own; that entry is
  never a function, \<^verbatim>\<open>valueOf\<close> returns no primitive either, and the conversion throws.
\<close>

fun ToString :: "('n \<Rightarrow> string) \<Rightarrow> 'n json \<Rightarrow> string option" where
  "ToString nts JNull = Some ''null''"
| "ToString nts (JBool b) = Some (if b then ''true'' else ''false'')"
| "ToString nts (JNum n) = Some (nts n)"
| "ToString nts (JStr s) = Some s"
| "ToString nts (JArr xs) =
     map_option (join '','')
       (those (map (\<lambda>x. case x of JNull \<Rightarrow> Some [] | _ \<Rightarrow> ToString nts x) xs))"
| "ToString nts (JObj kvs) =
     (if ''toString'' \<in> set (map fst kvs) then None else Some ''[object Object]'')"

text \<open>
  The conversion applied to the right-hand side of \<^verbatim>\<open>td.innerText = cell\<close>. The
  attribute is declared \<^verbatim>\<open>[LegacyNullToEmptyString] DOMString innerText\<close>: null becomes
  the empty string, every other value goes through \<^verbatim>\<open>ToString\<close>.
\<close>

definition innerText_string :: "('n \<Rightarrow> string) \<Rightarrow> 'n json \<Rightarrow> string option" where
  "innerText_string nts v = (case v of JNull \<Rightarrow> Some [] | _ \<Rightarrow> ToString nts v)"

subsection \<open>The document tree\<close>

text \<open>
  A node is a text node or an element; an element has its tag and the list of its
  children, first child first. The script creates every node it inserts, so no node is
  shared and a tree of values is enough.
\<close>

datatype node = Text string | Elem element
  and element = Element (tag: string) (kids: "node list")

definition createElement :: "string \<Rightarrow> element" where
  "createElement t = Element t []"

text \<open>\<^verbatim>\<open>parent.appendChild(child)\<close> for a child that has no parent yet.\<close>

definition appendChild :: "element \<Rightarrow> node \<Rightarrow> element" where
  "appendChild parent child = Element (tag parent) (kids parent @ [child])"

definition LF :: char where
  "LF = CHR 0x0A"

definition CR :: char where
  "CR = CHR 0x0D"

definition br :: node where
  "br = Elem (createElement ''br'')"

text \<open>
  The \<^verbatim>\<open>innerText\<close> setter replaces the children of the element with the
  \<^emph>\<open>rendered text fragment\<close> of the string (HTML Standard): the input is scanned once;
  a maximal run of characters other than LF and CR becomes one text node; every LF, every
  CR LF pair and every lone CR becomes one \<^verbatim>\<open>br\<close> element. The first argument of
  \<open>fragment_loop\<close> is the run collected so far (the algorithm's variable \<^verbatim>\<open>text\<close>).
\<close>

definition flush :: "string \<Rightarrow> node list" where
  "flush text = (if text = [] then [] else [Text text])"

definition skip_LF :: "string \<Rightarrow> string" where
  "skip_LF cs = (case cs of [] \<Rightarrow> [] | d # ds \<Rightarrow> if d = LF then ds else cs)"

function fragment_loop :: "string \<Rightarrow> string \<Rightarrow> node list" where
  "fragment_loop text [] = flush text"
| "fragment_loop text (c # cs) =
     (if c = LF then flush text @ br # fragment_loop [] cs
      else if c = CR then flush text @ br # fragment_loop [] (skip_LF cs)
      else fragment_loop (text @ [c]) cs)"
  by pat_completeness auto
termination
  by (relation "measure (\<lambda>(text, input). length input)")
     (auto simp: skip_LF_def split: list.splits)

definition rendered_text_fragment :: "string \<Rightarrow> node list" where
  "rendered_text_fragment input = fragment_loop [] input"

definition set_innerText :: "element \<Rightarrow> string \<Rightarrow> element" where
  "set_innerText e s = Element (tag e) (rendered_text_fragment s)"

text \<open>
  The text content of a node (\<^verbatim>\<open>Node.textContent\<close>, DOM Standard): the data of a text
  node; for an element the data of all its text node descendants, in tree order. It is the
  text the tree holds, not the text a browser displays: the display, and with it the
  \<^verbatim>\<open>innerText\<close> getter, depends on the style sheet (white space is collapsed and
  trimmed) and is not modelled.
\<close>

fun textContent_node :: "node \<Rightarrow> string" and textContent :: "element \<Rightarrow> string" where
  "textContent_node (Text s) = s"
| "textContent_node (Elem e) = textContent e"
| "textContent (Element t ks) = concat (map textContent_node ks)"

text \<open>The children of an element that are elements (\<^verbatim>\<open>Element.children\<close>).\<close>

fun is_element :: "node \<Rightarrow> bool" where
  "is_element (Text s) = False"
| "is_element (Elem e) = True"

definition element_children :: "element \<Rightarrow> node list" where
  "element_children e = filter is_element (kids e)"

subsection \<open>The page, the network and promises\<close>

text \<open>
  A request as \<^verbatim>\<open>fetch\<close> builds it, and a response as the script can observe it: its
  HTTP status and what \<^verbatim>\<open>JSON.parse\<close> makes of its body (\<open>None\<close> when the body is not
  JSON text). The network is the environment: it answers a request with a response of any
  status, or not at all (\<open>None\<close>: no connection, and \<^verbatim>\<open>fetch\<close> rejects).
\<close>

record request =
  url :: string
  http_method :: string
  headers :: "(string \<times> string) list"
  body :: "string option"

record 'n response =
  status :: nat
  parsed :: "'n json option"

definition ok :: "'n response \<Rightarrow> bool" where
  "ok res = (200 \<le> status res \<and> status res \<le> 299)"

text \<open>
  The state the script acts on: the page, seen through the identifiers of its elements,
  and the requests sent so far, oldest first.
\<close>

record world =
  page :: "string \<rightharpoonup> element"
  sent :: "request list"

datatype error =
    FetchFailed
  | JSONSyntaxError
  | NoForEach
  | NoPrimitive
  | TableIsNull

text \<open>
  \<open>FetchFailed\<close>: the TypeError \<^verbatim>\<open>fetch\<close> rejects with when there is no response.
  \<open>JSONSyntaxError\<close>: the SyntaxError of \<^verbatim>\<open>res.json()\<close>.
  \<open>NoForEach\<close>: the TypeError of calling \<^verbatim>\<open>forEach\<close> on a value that is null or not
  an array. \<open>NoPrimitive\<close>: the TypeError of assigning to \<^verbatim>\<open>innerText\<close> a value
  that cannot be converted to a string. \<open>TableIsNull\<close>: the TypeError of
  \<^verbatim>\<open>table.appendChild\<close> when \<^verbatim>\<open>table\<close> is null.

  A settled promise is its result, \<open>Inl\<close> for a rejection, with the state it left.
  \<open>promise_then\<close> is \<^verbatim>\<open>.then(f)\<close> with one argument: \<open>f\<close> runs on a fulfilled
  promise, a rejection passes through. The script attaches no rejection handler, so a
  rejected last promise of the chain is an unhandled rejection.
\<close>

type_synonym 'a promise = "(error + 'a) \<times> world"

definition promise_then :: "'a promise \<Rightarrow> ('a \<Rightarrow> world \<Rightarrow> 'b promise) \<Rightarrow> 'b promise" where
  "promise_then p f = (case p of (Inl e, w) \<Rightarrow> (Inl e, w) | (Inr v, w) \<Rightarrow> f v w)"

text \<open>
  \<^verbatim>\<open>fetch(u)\<close> with a URL and no second argument: the request has the method GET, an
  empty header list and no body. The promise is fulfilled with the response whatever its
  status.
\<close>

definition fetch_request :: "string \<Rightarrow> request" where
  "fetch_request u = \<lparr>url = u, http_method = ''GET'', headers = [], body = None\<rparr>"

definition fetch :: "(request \<Rightarrow> 'n response option) \<Rightarrow> string \<Rightarrow> world \<Rightarrow> 'n response promise" where
  "fetch net u w =
     (let req = fetch_request u;
          w' = w\<lparr>sent := sent w @ [req]\<rparr>
      in case net req of
           None \<Rightarrow> (Inl FetchFailed, w')
         | Some res \<Rightarrow> (Inr res, w'))"

definition res_json :: "'n response \<Rightarrow> world \<Rightarrow> 'n json promise" where
  "res_json res w =
     (case parsed res of
        None \<Rightarrow> (Inl JSONSyntaxError, w)
      | Some v \<Rightarrow> (Inr v, w))"

definition getElementById :: "world \<Rightarrow> string \<Rightarrow> element option" where
  "getElementById w i = page w i"

subsection \<open>The script\<close>

text \<open>
  The inner \<^verbatim>\<open>row.forEach\<close>, on the elements of an array: one \<^verbatim>\<open>td\<close> per value,
  appended to the row under construction. The assignment to \<^verbatim>\<open>innerText\<close> throws
  when the value does not convert; the row under construction is then lost.
\<close>

fun cells_loop :: "('n \<Rightarrow> string) \<Rightarrow> 'n json list \<Rightarrow> element \<Rightarrow> error + element" where
  "cells_loop nts [] tr = Inr tr"
| "cells_loop nts (cell # rest) tr =
     (let td = createElement ''td'' in
      case innerText_string nts cell of
        None \<Rightarrow> Inl NoPrimitive
      | Some s \<Rightarrow>
          (let td = set_innerText td s;
               tr = appendChild tr (Elem td)
           in cells_loop nts rest tr))"

text \<open>
  The outer \<^verbatim>\<open>data.forEach\<close>, on the elements of an array. \<open>table\<close> is the object
  the variable \<^verbatim>\<open>table\<close> refers to (\<open>None\<close> for null); the loop returns it as it
  stands when the loop ends or throws.
\<close>

fun rows_loop ::
  "('n \<Rightarrow> string) \<Rightarrow> 'n json list \<Rightarrow> element option \<Rightarrow> (error + unit) \<times> element option" where
  "rows_loop nts [] table = (Inr (), table)"
| "rows_loop nts (row # rest) table =
     (let tr = createElement ''tr'' in
      case row of
        JArr cells \<Rightarrow>
          (case cells_loop nts cells tr of
             Inl e \<Rightarrow> (Inl e, table)
           | Inr tr \<Rightarrow>
               (case table of
                  None \<Rightarrow> (Inl TableIsNull, table)
                | Some t \<Rightarrow> rows_loop nts rest (Some (appendChild t (Elem tr)))))
      | _ \<Rightarrow> (Inl NoForEach, table))"

text \<open>
  The second callback. The element found under \<^verbatim>\<open>ranking\<close> lives in the page, so
  what the loop did to it is what the page holds afterwards.
\<close>

definition render :: "('n \<Rightarrow> string) \<Rightarrow> 'n json \<Rightarrow> world \<Rightarrow> unit promise" where
  "render nts data w =
     (let table = getElementById w ''ranking'' in
      case data of
        JArr rows \<Rightarrow>
          (let (r, table') = rows_loop nts rows table
           in (r, w\<lparr>page := (page w)(''ranking'' := table')\<rparr>))
      | _ \<Rightarrow> (Inl NoForEach, w))"

definition script :: "('n \<Rightarrow> string) \<Rightarrow> (request \<Rightarrow> 'n response option) \<Rightarrow> world \<Rightarrow> unit promise" where
  "script nts net w =
     promise_then (promise_then (fetch net ''/data'' w) res_json) (render nts)"

text \<open>One page load: the script runs once, on the page as loaded, nothing sent yet.\<close>

definition run ::
  "('n \<Rightarrow> string) \<Rightarrow> (request \<Rightarrow> 'n response option) \<Rightarrow> (string \<rightharpoonup> element) \<Rightarrow> unit promise" where
  "run nts net p = script nts net \<lparr>page = p, sent = []\<rparr>"

definition outcome :: "unit promise \<Rightarrow> error + unit" where
  "outcome pr = fst pr"

definition container :: "unit promise \<Rightarrow> element option" where
  "container pr = page (snd pr) ''ranking''"

subsection \<open>Notions used to state the properties\<close>

text \<open>
  A value converts when assigning it to \<^verbatim>\<open>innerText\<close> does not throw; \<open>text_of\<close>
  is then the text it is coerced to. Every scalar converts; a value that does not is an
  object with a \<^verbatim>\<open>toString\<close> entry, or an array that holds one.
\<close>

definition converts :: "('n \<Rightarrow> string) \<Rightarrow> 'n json \<Rightarrow> bool" where
  "converts nts v = (case innerText_string nts v of None \<Rightarrow> False | Some s \<Rightarrow> True)"

definition text_of :: "('n \<Rightarrow> string) \<Rightarrow> 'n json \<Rightarrow> string" where
  "text_of nts v = (case innerText_string nts v of None \<Rightarrow> [] | Some s \<Rightarrow> s)"

fun is_scalar :: "'n json \<Rightarrow> bool" where
  "is_scalar (JArr xs) = False"
| "is_scalar (JObj kvs) = False"
| "is_scalar _ = True"

text \<open>
  Following the specification's words, to be compared with the loops above: a rendered cell
  is a new \<^verbatim>\<open>td\<close> element whose text has been set to the value coerced to text; a
  rendered row is a \<^verbatim>\<open>tr\<close> element with one rendered cell per value, in the order of
  the values.
\<close>

definition spec_cell :: "('n \<Rightarrow> string) \<Rightarrow> 'n json \<Rightarrow> node" where
  "spec_cell nts v = Elem (set_innerText (createElement ''td'') (text_of nts v))"

definition row_converts :: "('n \<Rightarrow> string) \<Rightarrow> 'n json list \<Rightarrow> bool" where
  "row_converts nts cells = list_all (converts nts) cells"

definition spec_row :: "('n \<Rightarrow> string) \<Rightarrow> 'n json list \<Rightarrow> node" where
  "spec_row nts cells = Elem (Element ''tr'' (map (spec_cell nts) cells))"

fun is_array :: "'n json \<Rightarrow> bool" where
  "is_array (JArr xs) = True"
| "is_array _ = False"

text \<open>
  The text content of the cells of the container after a run: per child of the container,
  the text content of each of its children.
\<close>

fun row_texts :: "node \<Rightarrow> string list" where
  "row_texts (Text s) = []"
| "row_texts (Elem e) = map textContent_node (kids e)"

definition cell_texts :: "unit promise \<Rightarrow> string list list" where
  "cell_texts pr = (case container pr of None \<Rightarrow> [] | Some t \<Rightarrow> map row_texts (kids t))"

text \<open>
  Following the words of the properties on the content of a cell: a line break of a string
  is a CR LF pair, a CR alone or an LF alone; the line breaks split the string into pieces
  (one more piece than there are line breaks, empty pieces included); the content is one
  text node for each piece that is not empty and one \<^verbatim>\<open>br\<close> element for each line
  break, in the order of the string.
\<close>

definition is_break :: "char \<Rightarrow> bool" where
  "is_break c = (c = LF \<or> c = CR)"

function line_breaks :: "string \<Rightarrow> nat" where
  "line_breaks [] = 0"
| "line_breaks (c # cs) =
     (if c = CR then Suc (line_breaks (skip_LF cs))
      else if c = LF then Suc (line_breaks cs)
      else line_breaks cs)"
  by pat_completeness auto
termination
  by (relation "measure length") (auto simp: skip_LF_def split: list.splits)

function split_lines :: "string \<Rightarrow> string list" where
  "split_lines s =
     (let piece = takeWhile (\<lambda>c. \<not> is_break c) s in
      case dropWhile (\<lambda>c. \<not> is_break c) s of
        [] \<Rightarrow> [piece]
      | c # cs \<Rightarrow> piece # split_lines (if c = CR then skip_LF cs else cs))"
  by pat_completeness auto
termination
proof (relation "measure length")
  show "wf (measure length)" by simp
next
  fix s :: string and piece c cs
  assume "dropWhile (\<lambda>c. \<not> is_break c) s = c # cs"
  then have "length (c # cs) \<le> length s"
    by (metis length_dropWhile_le)
  moreover have "length (skip_LF cs) \<le> length cs"
    by (simp add: skip_LF_def split: list.splits)
  ultimately show "(if c = CR then skip_LF cs else cs, s) \<in> measure length"
    by auto
qed

declare split_lines.simps [simp del]

fun pieces_nodes :: "string list \<Rightarrow> node list" where
  "pieces_nodes [] = []"
| "pieces_nodes [p] = flush p"
| "pieces_nodes (p # q # ps) = flush p @ br # pieces_nodes (q # ps)"

definition spec_fragment :: "string \<Rightarrow> node list" where
  "spec_fragment s = pieces_nodes (split_lines s)"

text \<open>
  The payload is an array whose first row is an array of values that convert: the first
  row can be rendered.
\<close>

definition first_row_renders :: "('n \<Rightarrow> string) \<Rightarrow> 'n json \<Rightarrow> bool" where
  "first_row_renders nts data =
     (case data of
        JArr rows \<Rightarrow>
          (case rows of
             [] \<Rightarrow> False
           | row # rest \<Rightarrow> (case row of JArr cells \<Rightarrow> row_converts nts cells | _ \<Rightarrow> False))
      | _ \<Rightarrow> False)"

subsection \<open>Example inputs\<close>

text \<open>
  For the examples numbers are natural numbers and \<open>nts\<close> is the decimal numeral. The
  engine's conversion gives these digits for every non-negative integer below \<open>2^53\<close>;
  a larger number is printed rounded, and from \<open>10^21\<close> on with an exponent. The
  examples apply it to 1, 5, 7 and 10 only, and no theorem on the script depends on it:
  each is stated for every \<open>nts\<close>.
\<close>

definition digit :: "nat \<Rightarrow> char" where
  "digit d = ''0123456789'' ! d"

function decimal :: "nat \<Rightarrow> string" where
  "decimal n = (if n < 10 then [digit n] else decimal (n div 10) @ [digit (n mod 10)])"
  by pat_completeness auto
termination
  by (relation "measure id") auto

text \<open>A network that answers every request with the same response.\<close>

definition answers :: "'n response \<Rightarrow> request \<Rightarrow> 'n response option" where
  "answers res req = Some res"

text \<open>A page whose only identified element is the one under \<^verbatim>\<open>ranking\<close>, and a page without any.\<close>

definition page_with :: "element \<Rightarrow> string \<rightharpoonup> element" where
  "page_with e = [''ranking'' \<mapsto> e]"

definition no_page :: "string \<rightharpoonup> element" where
  "no_page = Map.empty"

definition empty_table :: element where
  "empty_table = Element ''table'' []"

definition table_with_header :: element where
  "table_with_header =
     Element ''table'' [Elem (Element ''tr'' [Elem (Element ''th'' [Text ''Name''])])]"

definition alice_bob :: "nat json list list" where
  "alice_bob = [[JStr ''Alice'', JNum 10], [JStr ''Bob'', JNum 7]]"

definition line_break_cell :: "nat json" where
  "line_break_cell = JStr [CHR ''<'', LF, CHR ''>'']"

text \<open>The value of the JSON text \<^verbatim>\<open>{"toString": 1}\<close>.\<close>

definition shadowing_object :: "nat json" where
  "shadowing_object = JObj [(''toString'', JNum 1)]"

text \<open>The value of the JSON text \<^verbatim>\<open>{"error": "boom"}\<close>.\<close>

definition error_object :: "nat json" where
  "error_object = JObj [(''error'', JStr ''boom'')]"

section \<open>Properties of the browser operations\<close>

lemma CR_neq_LF: "CR \<noteq> LF"
  by (simp add: CR_def LF_def)

lemma LF_neq_CR: "LF \<noteq> CR"
  by (simp add: CR_def LF_def)

lemma textContent_br: "textContent_node br = []"
  by (simp add: br_def createElement_def)

lemma textContent_flush: "concat (map textContent_node (flush acc)) = acc"
  by (simp add: flush_def)

lemma elements_of_flush: "filter is_element (flush acc) = []"
  by (simp add: flush_def)

lemma filter_skip_LF:
  "filter (\<lambda>c. c \<noteq> LF \<and> c \<noteq> CR) (skip_LF cs) = filter (\<lambda>c. c \<noteq> LF \<and> c \<noteq> CR) cs"
  by (cases cs) (simp_all add: skip_LF_def)

text \<open>The text nodes of the fragment hold the characters of the string, line breaks apart.\<close>

lemma textContent_fragment_loop:
  "concat (map textContent_node (fragment_loop acc s))
     = acc @ filter (\<lambda>c. c \<noteq> LF \<and> c \<noteq> CR) s"
  by (induction acc s rule: fragment_loop.induct)
     (simp_all add: textContent_flush textContent_br filter_skip_LF)

text \<open>The elements of the fragment are one line break element for each line break.\<close>

lemma elements_fragment_loop:
  "filter is_element (fragment_loop acc s) = replicate (line_breaks s) br"
  by (induction acc s rule: fragment_loop.induct)
     (simp_all add: elements_of_flush br_def createElement_def CR_neq_LF)

lemma line_breaks_none: "LF \<notin> set s \<Longrightarrow> CR \<notin> set s \<Longrightarrow> line_breaks s = 0"
  by (induction s) auto

text \<open>The loop of the setter builds the nodes of the pieces between the line breaks.\<close>

lemma split_lines_Nil: "split_lines [] = [[]]"
  by (simp add: split_lines.simps)

lemma split_lines_break:
  "is_break c \<Longrightarrow> split_lines (c # cs) = [] # split_lines (if c = CR then skip_LF cs else cs)"
  by (subst split_lines.simps) simp

lemma split_lines_char:
  assumes "\<not> is_break c"
  shows "split_lines (c # cs) =
     (case split_lines cs of p # ps \<Rightarrow> (c # p) # ps | [] \<Rightarrow> [[c]])"
proof -
  have 1: "split_lines (c # cs) =
      (case dropWhile (\<lambda>c. \<not> is_break c) cs of
         [] \<Rightarrow> [c # takeWhile (\<lambda>c. \<not> is_break c) cs]
       | d # ds \<Rightarrow> (c # takeWhile (\<lambda>c. \<not> is_break c) cs)
                    # split_lines (if d = CR then skip_LF ds else ds))"
    using assms by (subst split_lines.simps) (simp add: Let_def)
  have 2: "split_lines cs =
      (case dropWhile (\<lambda>c. \<not> is_break c) cs of
         [] \<Rightarrow> [takeWhile (\<lambda>c. \<not> is_break c) cs]
       | d # ds \<Rightarrow> takeWhile (\<lambda>c. \<not> is_break c) cs
                    # split_lines (if d = CR then skip_LF ds else ds))"
    by (subst split_lines.simps) (simp add: Let_def)
  show ?thesis
    unfolding 1 2
    by (cases "dropWhile (\<lambda>c. \<not> is_break c) cs")
       (simp_all del: dropWhile_eq_Nil_conv)
qed

lemma split_lines_not_Nil: "split_lines s \<noteq> []"
  by (subst split_lines.simps) (simp add: Let_def split: list.splits)

lemma pieces_nodes_Cons:
  "ps \<noteq> [] \<Longrightarrow> pieces_nodes (p # ps) = flush p @ br # pieces_nodes ps"
  by (cases ps) simp_all

lemma fragment_loop_pieces:
  "fragment_loop acc s =
     (case split_lines s of p # ps \<Rightarrow> pieces_nodes ((acc @ p) # ps) | [] \<Rightarrow> [])"
proof (induction acc s rule: fragment_loop.induct)
  case (1 acc)
  then show ?case by (simp add: split_lines_Nil)
next
  case (2 acc c cs)
  show ?case
  proof (cases "is_break c")
    case True
    then show ?thesis
      using 2 split_lines_not_Nil [of cs] split_lines_not_Nil [of "skip_LF cs"]
      by (auto simp: split_lines_break is_break_def CR_def LF_def pieces_nodes_Cons
            split: list.splits)
  next
    case False
    then show ?thesis
      using 2 split_lines_not_Nil [of cs]
      by (auto simp: split_lines_char is_break_def split: list.splits)
  qed
qed

lemma rendered_fragment_spec: "rendered_text_fragment s = spec_fragment s"
  using split_lines_not_Nil [of s]
  by (simp add: rendered_text_fragment_def spec_fragment_def fragment_loop_pieces
        split: list.splits)

lemma fragment_loop_no_break:
  "LF \<notin> set s \<Longrightarrow> CR \<notin> set s \<Longrightarrow> fragment_loop acc s = flush (acc @ s)"
  by (induction acc s rule: fragment_loop.induct) auto

lemma scalar_converts: "is_scalar v \<Longrightarrow> converts nts v"
  by (cases v) (simp_all add: converts_def innerText_string_def)

text \<open>The text a value is coerced to is its string form, except for null.\<close>

lemma text_of_null: "text_of nts JNull = []"
  by (simp add: text_of_def innerText_string_def)

lemma string_form_text_of:
  assumes "converts nts v" and "v \<noteq> JNull"
  shows "ToString nts v = Some (text_of nts v)"
proof -
  obtain s where s: "innerText_string nts v = Some s"
    using assms(1) by (auto simp: converts_def split: option.splits)
  then have "text_of nts v = s"
    by (simp add: text_of_def)
  moreover have "innerText_string nts v = ToString nts v"
    using assms(2) by (cases v) (simp_all add: innerText_string_def)
  ultimately show ?thesis
    using s by simp
qed

text \<open>The content of a rendered cell.\<close>

lemma spec_cell_fragment:
  "spec_cell nts v = Elem (Element ''td'' (spec_fragment (text_of nts v)))"
  by (simp add: spec_cell_def createElement_def set_innerText_def rendered_fragment_spec)

lemma textContent_spec_fragment:
  "concat (map textContent_node (spec_fragment s)) = filter (\<lambda>c. c \<noteq> LF \<and> c \<noteq> CR) s"
  using textContent_fragment_loop [of "[]" s]
  by (simp add: rendered_fragment_spec [symmetric] rendered_text_fragment_def)

lemma elements_spec_fragment:
  "filter is_element (spec_fragment s) = replicate (line_breaks s) br"
  using elements_fragment_loop [of "[]" s]
  by (simp add: rendered_fragment_spec [symmetric] rendered_text_fragment_def)

lemma spec_fragment_no_break:
  "LF \<notin> set s \<Longrightarrow> CR \<notin> set s \<Longrightarrow> spec_fragment s = flush s"
  using fragment_loop_no_break [of s "[]"]
  by (simp add: rendered_fragment_spec [symmetric] rendered_text_fragment_def)

section \<open>Properties of the loops\<close>

text \<open>
  The inner loop appends the rendered cells of the values, in their order, when every value
  converts, and throws otherwise.
\<close>

lemma cells_loop_converts:
  "row_converts nts cells \<Longrightarrow>
   cells_loop nts cells tr = Inr (Element (tag tr) (kids tr @ map (spec_cell nts) cells))"
  by (induction cells arbitrary: tr)
     (auto simp: row_converts_def converts_def text_of_def spec_cell_def createElement_def
        set_innerText_def appendChild_def split: option.splits)

lemma cells_loop_throws:
  "\<not> row_converts nts cells \<Longrightarrow> cells_loop nts cells tr = Inl NoPrimitive"
  by (induction cells arbitrary: tr)
     (auto simp: row_converts_def converts_def split: option.splits)

lemma cells_loop_Inr:
  assumes "cells_loop nts cells tr = Inr row"
  shows "row_converts nts cells \<and> row = Element (tag tr) (kids tr @ map (spec_cell nts) cells)"
proof (cases "row_converts nts cells")
  case True
  then show ?thesis using assms by (simp add: cells_loop_converts)
next
  case False
  then show ?thesis using assms by (simp add: cells_loop_throws)
qed

text \<open>
  The outer loop, run through a prefix of rows that are arrays of values that convert, has
  appended their rows; it throws at a row that holds a value that does not convert.
\<close>

lemma rows_loop_prefix:
  "list_all (row_converts nts) pre \<Longrightarrow>
   rows_loop nts (map JArr pre @ rest) (Some t) =
     rows_loop nts rest (Some (Element (tag t) (kids t @ map (spec_row nts) pre)))"
  by (induction pre arbitrary: t)
     (simp_all add: cells_loop_converts spec_row_def createElement_def appendChild_def)

lemma rows_loop_throwing_row:
  "\<not> row_converts nts cells \<Longrightarrow>
   rows_loop nts (JArr cells # rest) tbl = (Inl NoPrimitive, tbl)"
  by (simp add: cells_loop_throws)

text \<open>The rows of an array of arrays are rendered up to the first that throws.\<close>

lemma rows_loop_arrays:
  "rows_loop nts (map JArr cellss) (Some t) =
     (if list_all (row_converts nts) cellss then Inr () else Inl NoPrimitive,
      Some (Element (tag t) (kids t @ map (spec_row nts) (takeWhile (row_converts nts) cellss))))"
proof -
  let ?pre = "takeWhile (row_converts nts) cellss"
  let ?rest = "dropWhile (row_converts nts) cellss"
  let ?t1 = "Element (tag t) (kids t @ map (spec_row nts) ?pre)"
  have pre: "list_all (row_converts nts) ?pre"
    by (simp add: list_all_iff) (meson set_takeWhileD)
  have "map JArr cellss = map JArr ?pre @ map JArr ?rest"
    by (simp flip: map_append)
  then have step: "rows_loop nts (map JArr cellss) (Some t) = rows_loop nts (map JArr ?rest) (Some ?t1)"
    using rows_loop_prefix [OF pre] by simp
  show ?thesis
  proof (cases ?rest)
    case Nil
    then have "list_all (row_converts nts) cellss"
      by (simp add: list_all_iff)
    then show ?thesis using step Nil by simp
  next
    case (Cons r rs)
    then have r: "\<not> row_converts nts r"
      by (metis hd_dropWhile list.sel(1) list.simps(3))
    then have "\<not> list_all (row_converts nts) cellss"
      using Cons by (metis dropWhile_eq_Nil_conv list.simps(3) list_all_iff)
    then show ?thesis
      using step Cons r by (simp add: cells_loop_throws)
  qed
qed

text \<open>Whatever the rows, and whether it throws or not, the outer loop only appends.\<close>

lemma rows_loop_appends:
  "\<exists>t'. snd (rows_loop nts rows (Some t)) = Some t' \<and> tag t' = tag t
        \<and> prefix (kids t) (kids t')"
proof (induction rows arbitrary: t)
  case Nil
  then show ?case by simp
next
  case (Cons row rows)
  show ?case
  proof (cases row)
    case (JArr cells)
    show ?thesis
    proof (cases "cells_loop nts cells (createElement ''tr'')")
      case (Inl e)
      then show ?thesis using JArr by simp
    next
      case (Inr tr)
      let ?t1 = "appendChild t (Elem tr)"
      obtain t' where t': "snd (rows_loop nts rows (Some ?t1)) = Some t'"
          "tag t' = tag ?t1" "prefix (kids ?t1) (kids t')"
        using Cons.IH [of ?t1] by blast
      have "prefix (kids t) (kids t')"
        using t'(3) by (simp add: appendChild_def append_prefixD)
      then show ?thesis
        using JArr Inr t'(1,2) by (simp add: appendChild_def)
    qed
  qed simp_all
qed

text \<open>A first row that can be rendered is appended, whatever follows.\<close>

lemma first_row_appended:
  assumes "row_converts nts cells"
  shows "\<exists>t'. snd (rows_loop nts (JArr cells # rest) (Some t)) = Some t'
           \<and> length (kids t) < length (kids t')"
proof -
  let ?t1 = "Element (tag t) (kids t @ map (spec_row nts) [cells])"
  have "rows_loop nts (map JArr [cells] @ rest) (Some t) = rows_loop nts rest (Some ?t1)"
    using assms by (intro rows_loop_prefix) simp
  moreover obtain t' where "snd (rows_loop nts rest (Some ?t1)) = Some t'"
      "prefix (kids ?t1) (kids t')"
    using rows_loop_appends [of nts rest ?t1] by blast
  ultimately show ?thesis
    by (auto simp: prefix_def)
qed

lemma rows_loop_null_table:
  "rows_loop nts rows None =
     (case rows of
        [] \<Rightarrow> Inr ()
      | JArr cells # rest \<Rightarrow> if row_converts nts cells then Inl TableIsNull else Inl NoPrimitive
      | _ \<Rightarrow> Inl NoForEach,
      None)"
  by (cases rows)
     (simp_all add: cells_loop_converts cells_loop_throws split: json.splits)

section \<open>The three ways a run can go\<close>

lemma run_no_response:
  "net (fetch_request ''/data'') = None \<Longrightarrow>
   run nts net p = (Inl FetchFailed, \<lparr>page = p, sent = [fetch_request ''/data'']\<rparr>)"
  by (simp add: run_def script_def fetch_def promise_then_def)

lemma run_not_json:
  "net (fetch_request ''/data'') = Some res \<Longrightarrow> parsed res = None \<Longrightarrow>
   run nts net p = (Inl JSONSyntaxError, \<lparr>page = p, sent = [fetch_request ''/data'']\<rparr>)"
  by (simp add: run_def script_def fetch_def promise_then_def res_json_def)

lemma run_json:
  "net (fetch_request ''/data'') = Some res \<Longrightarrow> parsed res = Some data \<Longrightarrow>
   run nts net p = render nts data \<lparr>page = p, sent = [fetch_request ''/data'']\<rparr>"
  by (simp add: run_def script_def fetch_def promise_then_def res_json_def)

lemma render_sent: "sent (snd (render nts data w)) = sent w"
  by (simp add: render_def split: json.splits prod.splits)

lemma render_not_array:
  "\<not> is_array data \<Longrightarrow> render nts data w = (Inl NoForEach, w)"
  by (cases data) (simp_all add: render_def)

lemma render_array:
  "render nts (JArr rows) w =
     (fst (rows_loop nts rows (page w ''ranking'')),
      w\<lparr>page := (page w)(''ranking'' := snd (rows_loop nts rows (page w ''ranking'')))\<rparr>)"
  by (simp add: render_def getElementById_def split: prod.splits)

lemma render_container_grows:
  assumes "page w ''ranking'' = Some t"
  shows "\<exists>t'. page (snd (render nts data w)) ''ranking'' = Some t' \<and> tag t' = tag t
              \<and> prefix (kids t) (kids t')"
proof (cases data)
  case (JArr rows)
  then show ?thesis
    using rows_loop_appends [of nts rows t] assms by (simp add: render_array)
qed (simp_all add: render_def assms)

text \<open>Evaluating a run on a concrete page and response unfolds these definitions.\<close>

lemmas run_unfold =
  run_def script_def promise_then_def fetch_def fetch_request_def res_json_def render_def
  getElementById_def outcome_def container_def createElement_def appendChild_def
  set_innerText_def innerText_string_def rendered_text_fragment_def flush_def skip_LF_def
  br_def answers_def page_with_def no_page_def empty_table_def table_with_header_def
  shadowing_object_def

section \<open>The scenarios of the specification\<close>

text \<open>
  The payload \<^verbatim>\<open>[["Alice", 10], ["Bob", 7]]\<close> gives two rows, with the cells
  \<^verbatim>\<open>Alice\<close>, \<^verbatim>\<open>10\<close> and \<^verbatim>\<open>Bob\<close>, \<^verbatim>\<open>7\<close>.
\<close>

lemma scenario_two_rows:
  "container (run decimal (answers \<lparr>status = 200, parsed = Some (JArr (map JArr alice_bob))\<rparr>)
      (page_with empty_table))
   = Some (Element ''table''
       [Elem (Element ''tr'' [Elem (Element ''td'' [Text ''Alice'']), Elem (Element ''td'' [Text ''10''])]),
        Elem (Element ''tr'' [Elem (Element ''td'' [Text ''Bob'']), Elem (Element ''td'' [Text ''7''])])])"
  by (simp add: run_unfold alice_bob_def digit_def LF_def CR_def)

text \<open>The payload \<^verbatim>\<open>[[]]\<close> gives one row with no cell.\<close>

lemma scenario_empty_row:
  "container (run decimal (answers \<lparr>status = 200, parsed = Some (JArr [JArr []])\<rparr>)
      (page_with empty_table))
   = Some (Element ''table'' [Elem (Element ''tr'' [])])"
  by (simp add: run_unfold)

text \<open>
  A cell that is an object with a \<^verbatim>\<open>toString\<close> entry makes the assignment throw: its
  row is not appended, and neither is any later row.
\<close>

lemma scenario_object_cell:
  "run decimal
      (answers \<lparr>status = 200, parsed = Some (JArr [JArr [JStr ''a''], JArr [shadowing_object], JArr []])\<rparr>)
      (page_with empty_table)
   = (Inl NoPrimitive,
      \<lparr>page = page_with (Element ''table'' [Elem (Element ''tr'' [Elem (Element ''td'' [Text ''a''])])]),
       sent = [fetch_request ''/data'']\<rparr>)"
  by (simp add: run_unfold LF_def CR_def)

text \<open>A null value gives a cell without content, a value that is an array its joined elements.\<close>

lemma scenario_null_and_array_cells:
  "container (run decimal
      (answers \<lparr>status = 200, parsed = Some (JArr [JArr [JNull, JArr [JNum 1, JNull, JBool True]]])\<rparr>)
      (page_with empty_table))
   = Some (Element ''table''
       [Elem (Element ''tr'' [Elem (Element ''td'' []), Elem (Element ''td'' [Text ''1,,true''])])])"
  by (simp add: run_unfold digit_def LF_def CR_def)

section \<open>The request\<close>

text \<open>
  Claim C7. Every run issues exactly one network request, to the fixed relative path
  \<^verbatim>\<open>/data\<close>, with the default method (GET), no query parameters, no custom headers and
  no request body: whatever the network answers and whatever the page holds, the requests
  sent by a run are this single one.
\<close>

theorem one_request_to_data:
  "sent (snd (run nts net p)) =
     [\<lparr>url = ''/data'', http_method = ''GET'', headers = [], body = None\<rparr>]"
proof (cases "net (fetch_request ''/data'')")
  case None
  then show ?thesis by (simp add: run_no_response fetch_request_def)
next
  case (Some res)
  show ?thesis
  proof (cases "parsed res")
    case None
    with Some show ?thesis by (simp add: run_not_json fetch_request_def)
  next
    case (Some data)
    with \<open>net (fetch_request ''/data'') = Some res\<close> show ?thesis
      by (simp add: run_json render_sent fetch_request_def)
  qed
qed

section \<open>Rows and cells\<close>

text \<open>
  Claim C2. For every payload that is an array of arrays, the row elements appended to the
  container are, top to bottom and after the children the container already had, the
  rendered rows of the payload in the payload's order, and the cells of each appended row
  are, left to right, the rendered cells of the values of that payload row in the order of
  the values. The rows appended are those before the first row holding a value that does
  not convert to text; when every value converts, as every scalar does, they are all the
  rows of the payload and the run ends fulfilled.
\<close>

theorem rows_and_cells_in_payload_order:
  assumes "net (fetch_request ''/data'') = Some res"
    and "parsed res = Some (JArr (map JArr cellss))"
    and "p ''ranking'' = Some t"
  shows "container (run nts net p) =
           Some (Element (tag t)
                  (kids t @ map (spec_row nts) (takeWhile (row_converts nts) cellss)))
         \<and> (list_all (row_converts nts) cellss \<longrightarrow>
               outcome (run nts net p) = Inr ()
               \<and> container (run nts net p) =
                   Some (Element (tag t) (kids t @ map (spec_row nts) cellss)))"
proof -
  have all: "takeWhile (row_converts nts) cellss = cellss"
    if "list_all (row_converts nts) cellss"
    using that by (simp add: list_all_iff)
  have c: "container (run nts net p) =
      Some (Element (tag t) (kids t @ map (spec_row nts) (takeWhile (row_converts nts) cellss)))"
    using assms by (simp add: run_json render_array container_def rows_loop_arrays)
  have o: "outcome (run nts net p) = Inr ()" if "list_all (row_converts nts) cellss"
    using assms that by (simp add: run_json render_array outcome_def rows_loop_arrays)
  have c': "container (run nts net p) = Some (Element (tag t) (kids t @ map (spec_row nts) cellss))"
    if "list_all (row_converts nts) cellss"
    using c all [OF that] by simp
  from c o c' show ?thesis by blast
qed

theorem rows_and_cells_in_payload_order_witness:
  "answers \<lparr>status = 200, parsed = Some (JArr (map JArr alice_bob))\<rparr> (fetch_request ''/data'')
     = Some \<lparr>status = 200, parsed = Some (JArr (map JArr alice_bob))\<rparr>
   \<and> page_with table_with_header ''ranking'' = Some table_with_header
   \<and> list_all (row_converts decimal) alice_bob
   \<and> outcome (run decimal (answers \<lparr>status = 200, parsed = Some (JArr (map JArr alice_bob))\<rparr>)
        (page_with table_with_header)) = Inr ()
   \<and> container (run decimal (answers \<lparr>status = 200, parsed = Some (JArr (map JArr alice_bob))\<rparr>)
        (page_with table_with_header))
       = Some (Element (tag table_with_header)
                (kids table_with_header @ map (spec_row decimal) alice_bob))"
proof -
  let ?res = "\<lparr>status = 200, parsed = Some (JArr (map JArr alice_bob))\<rparr>"
  have h1: "answers ?res (fetch_request ''/data'') = Some ?res"
    by (simp add: answers_def)
  have h2: "parsed ?res = Some (JArr (map JArr alice_bob))"
    by simp
  have h3: "page_with table_with_header ''ranking'' = Some table_with_header"
    by (simp add: page_with_def)
  have h4: "list_all (row_converts decimal) alice_bob"
    by (simp add: alice_bob_def row_converts_def converts_def innerText_string_def)
  from rows_and_cells_in_payload_order [where net = "answers ?res" and res = ?res
      and cellss = alice_bob and p = "page_with table_with_header"
      and t = table_with_header and nts = decimal, OF h1 h2 h3] h1 h3 h4
  show ?thesis
    by blast
qed

text \<open>
  Claim C1, as the specification states it: each cell's visible text equals the string form
  of its value. It fails on the row \<^verbatim>\<open>[null, "a\r\nb"]\<close>. The string form of null is
  \<^verbatim>\<open>null\<close>, and the first cell has no child at all, so it holds and shows no text.
  The string form of the second value is \<^verbatim>\<open>a\<close>, CR, LF, \<^verbatim>\<open>b\<close>; the second cell
  holds the text \<^verbatim>\<open>a\<close>, one line break element and the text \<^verbatim>\<open>b\<close>, and neither
  the CR nor the LF is in its text.
\<close>

theorem cell_text_differs_from_string_form:
  "container (run decimal
      (answers \<lparr>status = 200,
         parsed = Some (JArr [JArr [JNull, JStr [CHR ''a'', CR, LF, CHR ''b'']]])\<rparr>)
      (page_with empty_table))
     = Some (Element ''table''
         [Elem (Element ''tr''
            [Elem (Element ''td'' []), Elem (Element ''td'' [Text ''a'', br, Text ''b''])])])
   \<and> cell_texts (run decimal
      (answers \<lparr>status = 200,
         parsed = Some (JArr [JArr [JNull, JStr [CHR ''a'', CR, LF, CHR ''b'']]])\<rparr>)
      (page_with empty_table))
     = [[[], ''ab'']]
   \<and> map (ToString decimal) [JNull, JStr [CHR ''a'', CR, LF, CHR ''b'']]
     = [Some ''null'', Some [CHR ''a'', CR, LF, CHR ''b'']]
   \<and> [] \<noteq> ''null''
   \<and> ''ab'' \<noteq> [CHR ''a'', CR, LF, CHR ''b'']"
  by (simp add: run_def script_def promise_then_def fetch_def fetch_request_def res_json_def
        render_def getElementById_def container_def createElement_def appendChild_def
        set_innerText_def innerText_string_def rendered_text_fragment_def flush_def
        skip_LF_def answers_def page_with_def empty_table_def cell_texts_def
        textContent_br LF_neq_CR CR_neq_LF)
     (simp add: LF_def CR_def)

text \<open>
  Claim C1, amended. For every row \<open>r\<close> of length \<open>n\<close> of the parsed payload that comes
  before any row that is not an array or holds a value that does not convert to text, and
  with the container present, the row element appended to the container for \<open>r\<close> (at
  the position of \<open>r\<close> in the payload, after the children the container had) is a
  \<^verbatim>\<open>tr\<close> with exactly \<open>n\<close> children, each a \<^verbatim>\<open>td\<close>, and for each index
  \<open>j < n\<close> the \<open>j\<close>-th cell holds the text the assignment coerces the \<open>j\<close>-th value
  to (the string form of the value, and the empty text for null): its child nodes are, in
  order, one text node for each non-empty piece of that text between line breaks and one
  \<^verbatim>\<open>br\<close> element for each line break (CR LF, CR or LF), so that its text content is
  that text without its CR and LF characters; when the text holds no CR and no LF, the
  only child of the cell is the text node holding that text (no child when the text is
  empty) and the text content of the cell equals that text. What a browser displays for
  this content depends on the style sheet and is not part of the statement.
\<close>

theorem rendered_row_cells:
  assumes "net (fetch_request ''/data'') = Some res"
    and "parsed res = Some (JArr (map JArr pre @ rest))"
    and "list_all (row_converts nts) pre"
    and "p ''ranking'' = Some t"
    and "i < length pre"
  shows "\<exists>t' cs. container (run nts net p) = Some t'
           \<and> kids t' ! (length (kids t) + i) = Elem (Element ''tr'' cs)
           \<and> length cs = length (pre ! i)
           \<and> (\<forall>j < length (pre ! i).
                 cs ! j = Elem (Element ''td'' (spec_fragment (text_of nts (pre ! i ! j))))
                 \<and> (pre ! i ! j = JNull \<longrightarrow> text_of nts (pre ! i ! j) = [])
                 \<and> (pre ! i ! j \<noteq> JNull \<longrightarrow>
                      ToString nts (pre ! i ! j) = Some (text_of nts (pre ! i ! j)))
                 \<and> textContent_node (cs ! j) =
                     filter (\<lambda>c. c \<noteq> LF \<and> c \<noteq> CR) (text_of nts (pre ! i ! j))
                 \<and> (LF \<notin> set (text_of nts (pre ! i ! j))
                      \<and> CR \<notin> set (text_of nts (pre ! i ! j)) \<longrightarrow>
                        cs ! j = Elem (Element ''td'' (flush (text_of nts (pre ! i ! j))))
                        \<and> textContent_node (cs ! j) = text_of nts (pre ! i ! j)))"
proof -
  let ?t1 = "Element (tag t) (kids t @ map (spec_row nts) pre)"
  let ?cs = "map (spec_cell nts) (pre ! i)"
  obtain t' where t': "snd (rows_loop nts rest (Some ?t1)) = Some t'"
      "prefix (kids ?t1) (kids t')"
    using rows_loop_appends [of nts rest ?t1] by blast
  then obtain more where more: "kids t' = kids t @ map (spec_row nts) pre @ more"
    by (auto simp: prefix_def)
  have c: "container (run nts net p) = Some t'"
    using assms(1,2,4) t'(1) rows_loop_prefix [OF assms(3), of rest t]
    by (simp add: run_json render_array container_def)
  have row: "kids t' ! (length (kids t) + i) = Elem (Element ''tr'' ?cs)"
    using assms(5) by (simp add: more nth_append spec_row_def)
  have conv: "converts nts (pre ! i ! j)" if "j < length (pre ! i)" for j
    using assms(3,5) that by (simp add: list_all_length row_converts_def)
  have cells: "?cs ! j = Elem (Element ''td'' (spec_fragment (text_of nts (pre ! i ! j))))
      \<and> (pre ! i ! j = JNull \<longrightarrow> text_of nts (pre ! i ! j) = [])
      \<and> (pre ! i ! j \<noteq> JNull \<longrightarrow>
            ToString nts (pre ! i ! j) = Some (text_of nts (pre ! i ! j)))
      \<and> textContent_node (?cs ! j) =
            filter (\<lambda>c. c \<noteq> LF \<and> c \<noteq> CR) (text_of nts (pre ! i ! j))
      \<and> (LF \<notin> set (text_of nts (pre ! i ! j))
            \<and> CR \<notin> set (text_of nts (pre ! i ! j)) \<longrightarrow>
              ?cs ! j = Elem (Element ''td'' (flush (text_of nts (pre ! i ! j))))
              \<and> textContent_node (?cs ! j) = text_of nts (pre ! i ! j))"
    if "j < length (pre ! i)" for j
  proof -
    let ?s = "text_of nts (pre ! i ! j)"
    have a: "?cs ! j = Elem (Element ''td'' (spec_fragment ?s))"
      using that by (simp add: spec_cell_fragment)
    have b: "pre ! i ! j \<noteq> JNull \<longrightarrow> ToString nts (pre ! i ! j) = Some ?s"
      using conv [OF that] by (simp add: string_form_text_of)
    have n: "pre ! i ! j = JNull \<longrightarrow> ?s = []"
      by (simp add: text_of_null)
    have d: "textContent_node (?cs ! j) = filter (\<lambda>c. c \<noteq> LF \<and> c \<noteq> CR) ?s"
      unfolding a by (simp add: textContent_spec_fragment)
    have e: "?cs ! j = Elem (Element ''td'' (flush ?s)) \<and> textContent_node (?cs ! j) = ?s"
      if "LF \<notin> set ?s" "CR \<notin> set ?s"
      unfolding a using that by (simp add: spec_fragment_no_break textContent_flush)
    from a n b d e show ?thesis by blast
  qed
  have len: "length ?cs = length (pre ! i)" by simp
  from c row len cells show ?thesis by blast
qed

theorem rendered_row_cells_witness:
  "answers \<lparr>status = 200, parsed = Some (JArr (map JArr alice_bob @ [JNull]))\<rparr>
       (fetch_request ''/data'')
     = Some \<lparr>status = 200, parsed = Some (JArr (map JArr alice_bob @ [JNull]))\<rparr>
   \<and> list_all (row_converts decimal) alice_bob
   \<and> page_with table_with_header ''ranking'' = Some table_with_header
   \<and> (1::nat) < length alice_bob
   \<and> (\<exists>t' cs.
         container (run decimal
             (answers \<lparr>status = 200, parsed = Some (JArr (map JArr alice_bob @ [JNull]))\<rparr>)
             (page_with table_with_header)) = Some t'
         \<and> kids t' ! (length (kids table_with_header) + 1) = Elem (Element ''tr'' cs)
         \<and> length cs = length (alice_bob ! 1)
         \<and> (\<forall>j < length (alice_bob ! 1).
               cs ! j = Elem (Element ''td'' (spec_fragment (text_of decimal (alice_bob ! 1 ! j))))
               \<and> (alice_bob ! 1 ! j = JNull \<longrightarrow> text_of decimal (alice_bob ! 1 ! j) = [])
               \<and> (alice_bob ! 1 ! j \<noteq> JNull \<longrightarrow>
                    ToString decimal (alice_bob ! 1 ! j)
                      = Some (text_of decimal (alice_bob ! 1 ! j)))
               \<and> textContent_node (cs ! j) =
                   filter (\<lambda>c. c \<noteq> LF \<and> c \<noteq> CR) (text_of decimal (alice_bob ! 1 ! j))
               \<and> (LF \<notin> set (text_of decimal (alice_bob ! 1 ! j))
                    \<and> CR \<notin> set (text_of decimal (alice_bob ! 1 ! j)) \<longrightarrow>
                      cs ! j = Elem (Element ''td'' (flush (text_of decimal (alice_bob ! 1 ! j))))
                      \<and> textContent_node (cs ! j) = text_of decimal (alice_bob ! 1 ! j))))"
proof -
  let ?res = "\<lparr>status = 200, parsed = Some (JArr (map JArr alice_bob @ [JNull]))\<rparr>"
  have h1: "answers ?res (fetch_request ''/data'') = Some ?res"
    by (simp add: answers_def)
  have h2: "parsed ?res = Some (JArr (map JArr alice_bob @ [JNull]))"
    by simp
  have h3: "list_all (row_converts decimal) alice_bob"
    by (simp add: alice_bob_def row_converts_def converts_def innerText_string_def)
  have h4: "page_with table_with_header ''ranking'' = Some table_with_header"
    by (simp add: page_with_def)
  have h5: "(1::nat) < length alice_bob"
    by (simp add: alice_bob_def)
  from rendered_row_cells [where net = "answers ?res" and res = ?res
        and pre = alice_bob and rest = "[JNull]" and p = "page_with table_with_header"
        and t = table_with_header and i = 1 and nts = decimal, OF h1 h2 h3 h4 h5]
    h1 h3 h4 h5
  show ?thesis
    by blast
qed

section \<open>Plain text in cells\<close>

text \<open>
  Claim C8, as the specification states it: for every cell value the rendered cell has no
  element children derived from the value. It fails for a value with a line break: the cell
  for the string \<^verbatim>\<open><\<close>, LF, \<^verbatim>\<open>>\<close> has a \<^verbatim>\<open>br\<close> element between two text nodes.
\<close>

theorem line_break_becomes_element:
  "cells_loop decimal [line_break_cell] (createElement ''tr'') =
     Inr (Element ''tr'' [Elem (Element ''td'' [Text ''<'', br, Text ''>''])])
   \<and> element_children (Element ''td'' [Text ''<'', br, Text ''>'']) = [br]
   \<and> element_children (Element ''td'' [Text ''<'', br, Text ''>'']) \<noteq> []"
  by (simp add: line_break_cell_def createElement_def set_innerText_def appendChild_def
        innerText_string_def rendered_text_fragment_def flush_def LF_neq_CR CR_neq_LF
        element_children_def br_def LF_def CR_def)

text \<open>
  Claim C8, amended. For every cell value of a row that is rendered (every value of the row
  converts to text), markup characters included, the content of the cell is set as text and
  never parsed: the cell is a \<^verbatim>\<open>td\<close> whose child nodes are, in order, one text node
  for each non-empty piece of the value coerced to text between line breaks and exactly one
  \<^verbatim>\<open>br\<close> element for each line break (CR LF, CR or LF) of that text. These
  \<^verbatim>\<open>br\<close> elements are its only element children, and its text content holds the
  characters of that text other than CR and LF. When that text holds no line break (no LF
  and no CR), the rendered cell has no element children, its only child is the text node of
  that text (none when the text is empty), and its text content equals the value coerced to
  text.
\<close>

theorem cell_content_is_text:
  assumes "cells_loop nts cells (createElement ''tr'') = Inr row"
    and "j < length cells"
  shows "\<exists>td. kids row ! j = Elem td
            \<and> tag td = ''td''
            \<and> innerText_string nts (cells ! j) = Some (text_of nts (cells ! j))
            \<and> kids td = spec_fragment (text_of nts (cells ! j))
            \<and> element_children td = replicate (line_breaks (text_of nts (cells ! j))) br
            \<and> textContent td =
                filter (\<lambda>c. c \<noteq> LF \<and> c \<noteq> CR) (text_of nts (cells ! j))
            \<and> (LF \<notin> set (text_of nts (cells ! j))
                 \<and> CR \<notin> set (text_of nts (cells ! j)) \<longrightarrow>
                   element_children td = []
                   \<and> kids td = flush (text_of nts (cells ! j))
                   \<and> textContent td = text_of nts (cells ! j))"
proof -
  let ?s = "text_of nts (cells ! j)"
  let ?td = "Element ''td'' (spec_fragment ?s)"
  have conv: "row_converts nts cells"
    and row: "row = Element ''tr'' (map (spec_cell nts) cells)"
    using cells_loop_Inr [OF assms(1)] by (simp_all add: createElement_def)
  have 0: "innerText_string nts (cells ! j) = Some ?s"
    using conv assms(2)
    by (auto simp: row_converts_def list_all_length converts_def text_of_def
          split: option.splits)
  have 1: "kids row ! j = Elem ?td"
    using assms(2) by (simp add: row spec_cell_fragment)
  have 2: "element_children ?td = replicate (line_breaks ?s) br"
    by (simp add: element_children_def elements_spec_fragment)
  have 3: "textContent ?td = filter (\<lambda>c. c \<noteq> LF \<and> c \<noteq> CR) ?s"
    by (simp add: textContent_spec_fragment)
  have 4: "element_children ?td = [] \<and> kids ?td = flush ?s \<and> textContent ?td = ?s"
    if "LF \<notin> set ?s" "CR \<notin> set ?s"
    using that
    by (simp add: element_children_def spec_fragment_no_break elements_of_flush
          textContent_flush)
  have 5: "LF \<notin> set ?s \<and> CR \<notin> set ?s \<longrightarrow>
             element_children ?td = [] \<and> kids ?td = flush ?s \<and> textContent ?td = ?s"
    using 4 by blast
  have 6: "tag ?td = ''td''" by simp
  have 7: "kids ?td = spec_fragment ?s" by simp
  from 1 6 0 7 2 3 5 show ?thesis by blast
qed

theorem cell_content_is_text_witness:
  "cells_loop decimal [JStr ''<b>Alice</b>''] (createElement ''tr'')
     = Inr (Element ''tr'' [Elem (Element ''td'' [Text ''<b>Alice</b>''])])
   \<and> (0::nat) < length [JStr ''<b>Alice</b>'' :: nat json]
   \<and> LF \<notin> set (text_of decimal ([JStr ''<b>Alice</b>''] ! 0))
   \<and> CR \<notin> set (text_of decimal ([JStr ''<b>Alice</b>''] ! 0))
   \<and> (\<exists>td. kids (Element ''tr'' [Elem (Element ''td'' [Text ''<b>Alice</b>''])]) ! 0 = Elem td
          \<and> tag td = ''td''
          \<and> element_children td = []
          \<and> kids td = [Text ''<b>Alice</b>'']
          \<and> textContent td = ''<b>Alice</b>'')"
proof -
  let ?cells = "[JStr ''<b>Alice</b>''] :: nat json list"
  let ?row = "Element ''tr'' [Elem (Element ''td'' [Text ''<b>Alice</b>''])]"
  let ?s = "text_of decimal (?cells ! 0)"
  have h1: "cells_loop decimal ?cells (createElement ''tr'') = Inr ?row"
    by (simp add: createElement_def set_innerText_def appendChild_def innerText_string_def
          rendered_text_fragment_def flush_def LF_def CR_def)
  have h2: "(0::nat) < length ?cells"
    by simp
  have s: "?s = ''<b>Alice</b>''"
    by (simp add: text_of_def innerText_string_def)
  have n: "LF \<notin> set ?s \<and> CR \<notin> set ?s"
    unfolding s by (simp add: LF_def CR_def)
  from cell_content_is_text [where cells = ?cells and j = 0 and nts = decimal and row = ?row,
      OF h1 h2]
  obtain td where td: "kids ?row ! 0 = Elem td"
      "tag td = ''td''"
      "LF \<notin> set ?s \<and> CR \<notin> set ?s \<longrightarrow>
         element_children td = [] \<and> kids td = flush ?s \<and> textContent td = ?s"
    by blast
  from td(3) n have "element_children td = [] \<and> kids td = flush ?s \<and> textContent td = ?s"
    by blast
  then have "element_children td = [] \<and> kids td = [Text ''<b>Alice</b>'']
      \<and> textContent td = ''<b>Alice</b>''"
    unfolding s by (simp add: flush_def)
  with td(1,2) h1 h2 n show ?thesis
    by blast
qed

section \<open>The container\<close>

text \<open>
  Claim C5. When the parsed payload is the empty array, no row element is appended and the
  container's children are exactly what they were before the run: the page after the run
  is the page before it, and the run ends fulfilled.
\<close>

theorem empty_payload_unchanged:
  assumes "net (fetch_request ''/data'') = Some res"
    and "parsed res = Some (JArr [])"
  shows "outcome (run nts net p) = Inr ()
         \<and> page (snd (run nts net p)) = p
         \<and> container (run nts net p) = p ''ranking''"
  using assms by (simp add: run_json render_array outcome_def container_def)

theorem empty_payload_unchanged_witness:
  "answers \<lparr>status = 200, parsed = Some (JArr [])\<rparr> (fetch_request ''/data'')
     = Some (\<lparr>status = 200, parsed = Some (JArr [])\<rparr> :: nat response)
   \<and> parsed (\<lparr>status = 200, parsed = Some (JArr [])\<rparr> :: nat response) = Some (JArr [])
   \<and> outcome (run decimal (answers \<lparr>status = 200, parsed = Some (JArr [])\<rparr>)
        (page_with table_with_header)) = Inr ()
   \<and> page (snd (run decimal (answers \<lparr>status = 200, parsed = Some (JArr [])\<rparr>)
        (page_with table_with_header))) = page_with table_with_header
   \<and> container (run decimal (answers \<lparr>status = 200, parsed = Some (JArr [])\<rparr>)
        (page_with table_with_header)) = page_with table_with_header ''ranking''"
proof -
  let ?res = "\<lparr>status = 200, parsed = Some (JArr [])\<rparr> :: nat response"
  have h1: "answers ?res (fetch_request ''/data'') = Some ?res"
    by (simp add: answers_def)
  have h2: "parsed ?res = Some (JArr [])"
    by simp
  from empty_payload_unchanged [where net = "answers ?res" and res = ?res
      and p = "page_with table_with_header" and nts = decimal, OF h1 h2] h1 h2
  show ?thesis
    by blast
qed

text \<open>
  Claim C6. For every payload, and every answer of the network, the run only appends new
  children to the container: after the run the container is the same element, and the
  children it had before the run are still its first children, in their original positions.
\<close>

theorem container_only_grows:
  assumes "p ''ranking'' = Some t"
  shows "\<exists>t'. container (run nts net p) = Some t' \<and> tag t' = tag t
              \<and> prefix (kids t) (kids t')
              \<and> take (length (kids t)) (kids t') = kids t"
proof -
  have "\<exists>t'. container (run nts net p) = Some t' \<and> tag t' = tag t \<and> prefix (kids t) (kids t')"
  proof (cases "net (fetch_request ''/data'')")
    case None
    then show ?thesis using assms by (simp add: run_no_response container_def)
  next
    case (Some res)
    show ?thesis
    proof (cases "parsed res")
      case None
      with Some show ?thesis using assms by (simp add: run_not_json container_def)
    next
      case (Some data)
      with \<open>net (fetch_request ''/data'') = Some res\<close> show ?thesis
        using render_container_grows
          [of "\<lparr>page = p, sent = [fetch_request ''/data'']\<rparr>" t nts data] assms
        by (simp add: run_json container_def)
    qed
  qed
  then show ?thesis by (auto simp: prefix_def)
qed

theorem container_only_grows_witness:
  "page_with table_with_header ''ranking'' = Some table_with_header
   \<and> (\<exists>t'. container (run decimal
               (answers \<lparr>status = 200, parsed = Some (JArr (map JArr alice_bob))\<rparr>)
               (page_with table_with_header)) = Some t'
          \<and> tag t' = tag table_with_header
          \<and> prefix (kids table_with_header) (kids t')
          \<and> take (length (kids table_with_header)) (kids t') = kids table_with_header)"
proof -
  have h: "page_with table_with_header ''ranking'' = Some table_with_header"
    by (simp add: page_with_def)
  from container_only_grows [where p = "page_with table_with_header"
      and t = table_with_header and nts = decimal
      and net = "answers \<lparr>status = 200, parsed = Some (JArr (map JArr alice_bob))\<rparr>", OF h] h
  show ?thesis
    by blast
qed

section \<open>Failures\<close>

text \<open>
  Claim C3, as the specification states it: a non-success response (HTTP 500) results in no
  rows appended and an unhandled rejection. It fails: the script never reads the status, and
  a response with status 500 whose body is the JSON text \<^verbatim>\<open>[["x"]]\<close> is rendered, the
  run ending fulfilled.
\<close>

theorem status_500_with_rows_is_rendered:
  "\<not> ok \<lparr>status = 500, parsed = Some (JArr [JArr [JStr ''x'']])\<rparr>
   \<and> outcome (run decimal (answers \<lparr>status = 500, parsed = Some (JArr [JArr [JStr ''x'']])\<rparr>)
        (page_with empty_table)) = Inr ()
   \<and> container (run decimal (answers \<lparr>status = 500, parsed = Some (JArr [JArr [JStr ''x'']])\<rparr>)
        (page_with empty_table))
       = Some (Element ''table'' [Elem (Element ''tr'' [Elem (Element ''td'' [Text ''x''])])])"
  by (simp add: ok_def run_unfold LF_def CR_def)

text \<open>
  Claim C3, amended. For every run in which the network answers with a response, whatever
  its status (so in particular a non-success one such as HTTP 500), no row element is
  appended (the page is left as it was) and the operation chain ends in an unhandled
  rejection exactly when the body is not JSON text, or parses to a value that is not the
  empty array and is not, with the container present, an array whose first row is an array
  of values that convert to text. So a non-success response whose body is not JSON, or is
  an error object or any other JSON value that is not an array, ends as the claim says;
  one whose body is an array whose first row can be rendered is rendered, and one whose body
  is the empty array ends fulfilled with nothing appended. The same rejection with nothing
  appended holds when the request gets no response. The status of a response is not
  consulted: two networks whose responses to the request have the same parsed body give the
  same run.
\<close>

theorem non_success_rejects_without_rows:
  "(net (fetch_request ''/data'') = None \<longrightarrow>
      isl (outcome (run nts net p)) \<and> page (snd (run nts net p)) = p)
   \<and> (\<forall>res. net (fetch_request ''/data'') = Some res \<longrightarrow>
         ((isl (outcome (run nts net p)) \<and> page (snd (run nts net p)) = p) \<longleftrightarrow>
            (case parsed res of
               None \<Rightarrow> True
             | Some data \<Rightarrow>
                 data \<noteq> JArr [] \<and> \<not> (first_row_renders nts data \<and> p ''ranking'' \<noteq> None))))
   \<and> (\<forall>res1 res2. net (fetch_request ''/data'') = Some res1
         \<and> net2 (fetch_request ''/data'') = Some res2 \<and> parsed res1 = parsed res2
       \<longrightarrow> run nts net p = run nts net2 p)"
proof -
  have no_response: "isl (outcome (run nts net p)) \<and> page (snd (run nts net p)) = p"
    if "net (fetch_request ''/data'') = None"
    using that by (simp add: run_no_response outcome_def)
  have response: "(isl (outcome (run nts net p)) \<and> page (snd (run nts net p)) = p) \<longleftrightarrow>
          (case parsed res of
             None \<Rightarrow> True
           | Some data \<Rightarrow>
               data \<noteq> JArr [] \<and> \<not> (first_row_renders nts data \<and> p ''ranking'' \<noteq> None))"
    if res: "net (fetch_request ''/data'') = Some res" for res
  proof (cases "parsed res")
    case None
    then show ?thesis using res by (simp add: run_not_json outcome_def)
  next
    case (Some data)
    have run: "run nts net p = render nts data \<lparr>page = p, sent = [fetch_request ''/data'']\<rparr>"
      using res Some by (rule run_json)
    show ?thesis
    proof (cases "is_array data")
      case False
      then have "\<not> first_row_renders nts data" "data \<noteq> JArr []"
        by (cases data; simp add: first_row_renders_def)+
      then show ?thesis
        using Some False by (simp add: run render_not_array outcome_def)
    next
      case True
      then obtain rows where rows: "data = JArr rows" by (cases data) simp_all
      show ?thesis
      proof (cases "first_row_renders nts data \<and> p ''ranking'' \<noteq> None")
        case True
        then obtain cells rest t where first: "rows = JArr cells # rest"
            "row_converts nts cells" "p ''ranking'' = Some t"
          using rows
          by (auto simp: first_row_renders_def split: list.splits json.splits)
        obtain t' where t': "snd (rows_loop nts rows (Some t)) = Some t'"
            "length (kids t) < length (kids t')"
          using first_row_appended [OF first(2), of rest t] first(1) by blast
        have "page (snd (run nts net p)) ''ranking'' = Some t'"
          using first(3) t'(1) by (simp add: run rows render_array)
        then have "page (snd (run nts net p)) \<noteq> p"
          using first(3) t'(2) by auto
        then show ?thesis using Some True by simp
      next
        case False
        show ?thesis
        proof (cases "p ''ranking''")
          case None
          have "p(''ranking'' := None) = p"
            using None by (rule fun_upd_idem)
          then show ?thesis
            using Some False None
            by (simp add: run rows render_array rows_loop_null_table outcome_def
                  split: list.splits json.splits)
        next
          case (Some t)
          then have nf: "\<not> first_row_renders nts data" using False by simp
          have "p(''ranking'' \<mapsto> t) = p"
            using Some by (rule fun_upd_idem)
          then show ?thesis
            using \<open>parsed res = Some data\<close> Some nf
            by (simp add: run rows render_array outcome_def first_row_renders_def
                  cells_loop_throws split: list.splits json.splits)
        qed
      qed
    qed
  qed
  have same_body: "run nts net p = run nts net2 p"
    if a: "net (fetch_request ''/data'') = Some res1
         \<and> net2 (fetch_request ''/data'') = Some res2 \<and> parsed res1 = parsed res2"
    for res1 res2
  proof (cases "parsed res1")
    case None
    then show ?thesis using a by (simp add: run_not_json)
  next
    case (Some data)
    then show ?thesis using a by (simp add: run_json)
  qed
  from no_response response same_body show ?thesis
    by blast
qed

theorem non_success_rejects_without_rows_witness:
  "answers \<lparr>status = 500, parsed = Some error_object\<rparr> (fetch_request ''/data'')
     = Some \<lparr>status = 500, parsed = Some error_object\<rparr>
   \<and> \<not> ok \<lparr>status = 500, parsed = Some error_object\<rparr>
   \<and> error_object \<noteq> JArr []
   \<and> \<not> first_row_renders decimal error_object
   \<and> isl (outcome (run decimal (answers \<lparr>status = 500, parsed = Some error_object\<rparr>)
        (page_with table_with_header)))
   \<and> page (snd (run decimal (answers \<lparr>status = 500, parsed = Some error_object\<rparr>)
        (page_with table_with_header))) = page_with table_with_header
   \<and> answers \<lparr>status = 200, parsed = Some error_object\<rparr> (fetch_request ''/data'')
     = Some \<lparr>status = 200, parsed = Some error_object\<rparr>
   \<and> run decimal (answers \<lparr>status = 500, parsed = Some error_object\<rparr>)
        (page_with table_with_header)
     = run decimal (answers \<lparr>status = 200, parsed = Some error_object\<rparr>)
        (page_with table_with_header)"
proof -
  let ?r500 = "\<lparr>status = 500, parsed = Some error_object\<rparr>"
  let ?r200 = "\<lparr>status = 200, parsed = Some error_object\<rparr>"
  let ?p = "page_with table_with_header"
  have h1: "answers ?r500 (fetch_request ''/data'') = Some ?r500"
    by (simp add: answers_def)
  have h2: "answers ?r200 (fetch_request ''/data'') = Some ?r200"
    by (simp add: answers_def)
  have h3: "\<not> ok ?r500"
    by (simp add: ok_def)
  have h4: "error_object \<noteq> JArr []" "\<not> first_row_renders decimal error_object"
    by (simp_all add: error_object_def first_row_renders_def)
  have h5: "parsed ?r500 = parsed ?r200" "parsed ?r500 = Some error_object"
    by simp_all
  note inst = non_success_rejects_without_rows [where net = "answers ?r500"
      and ?net2.0 = "answers ?r200" and p = ?p and nts = decimal]
  have "(isl (outcome (run decimal (answers ?r500) ?p))
          \<and> page (snd (run decimal (answers ?r500) ?p)) = ?p) \<longleftrightarrow>
        (case parsed ?r500 of
           None \<Rightarrow> True
         | Some data \<Rightarrow>
             data \<noteq> JArr [] \<and> \<not> (first_row_renders decimal data \<and> ?p ''ranking'' \<noteq> None))"
    using inst h1 by blast
  then have a: "isl (outcome (run decimal (answers ?r500) ?p))
      \<and> page (snd (run decimal (answers ?r500) ?p)) = ?p"
    using h4 by simp
  have b: "run decimal (answers ?r500) ?p = run decimal (answers ?r200) ?p"
    using inst h1 h2 h5(1) by blast
  from a b h1 h2 h3 h4 show ?thesis
    by blast
qed

text \<open>
  Claim C4, as the specification states it: whenever no element with the identifier
  \<^verbatim>\<open>ranking\<close> exists, the operations after the lookup fail. It fails for the empty
  payload: the loop body never runs, the missing container is never used, and the run ends
  fulfilled.
\<close>

theorem missing_table_empty_payload_succeeds:
  "no_page ''ranking'' = None
   \<and> outcome (run decimal (answers \<lparr>status = 200, parsed = Some (JArr [])\<rparr>) no_page) = Inr ()"
  by (simp add: run_unfold)

text \<open>
  Claim C4, amended. For every run in which no element with the identifier
  \<^verbatim>\<open>ranking\<close> exists and a payload was parsed, the operations after the lookup fail
  with an unhandled failure exactly when the payload is anything but the empty array; when
  the payload is an array whose first row is an array of values that convert to text, the
  failure is that of the first \<^verbatim>\<open>table.appendChild\<close>. The page is left as it was.
\<close>

theorem missing_table_fails_unless_empty:
  assumes "p ''ranking'' = None"
    and "net (fetch_request ''/data'') = Some res"
    and "parsed res = Some data"
  shows "(isl (outcome (run nts net p)) \<longleftrightarrow> data \<noteq> JArr [])
         \<and> (\<forall>cells rest. data = JArr (JArr cells # rest) \<and> row_converts nts cells \<longrightarrow>
               outcome (run nts net p) = Inl TableIsNull)
         \<and> page (snd (run nts net p)) = p"
proof (cases data)
  case (JArr rows)
  have "p(''ranking'' := None) = p"
    using assms(1) by (rule fun_upd_idem)
  then show ?thesis
    using assms JArr
    by (simp add: run_json render_array rows_loop_null_table outcome_def
             split: list.splits json.splits)
qed (use assms in \<open>simp_all add: run_json render_def outcome_def\<close>)

theorem missing_table_fails_unless_empty_witness:
  "no_page ''ranking'' = None
   \<and> answers \<lparr>status = 200, parsed = Some (JArr (map JArr alice_bob))\<rparr> (fetch_request ''/data'')
     = Some \<lparr>status = 200, parsed = Some (JArr (map JArr alice_bob))\<rparr>
   \<and> JArr (map JArr alice_bob) \<noteq> JArr []
   \<and> isl (outcome (run decimal
        (answers \<lparr>status = 200, parsed = Some (JArr (map JArr alice_bob))\<rparr>) no_page))
   \<and> page (snd (run decimal
        (answers \<lparr>status = 200, parsed = Some (JArr (map JArr alice_bob))\<rparr>) no_page)) = no_page"
proof -
  let ?res = "\<lparr>status = 200, parsed = Some (JArr (map JArr alice_bob))\<rparr>"
  have h1: "no_page ''ranking'' = None"
    by (simp add: no_page_def)
  have h2: "answers ?res (fetch_request ''/data'') = Some ?res"
    by (simp add: answers_def)
  have h3: "parsed ?res = Some (JArr (map JArr alice_bob))"
    by simp
  have h4: "JArr (map JArr alice_bob) \<noteq> JArr []"
    by (simp add: alice_bob_def)
  from missing_table_fails_unless_empty [where p = no_page and net = "answers ?res"
      and res = ?res and data = "JArr (map JArr alice_bob)" and nts = decimal, OF h1 h2 h3]
    h1 h2 h4
  show ?thesis
    by blast
qed

text \<open>
  Claim C9, as stated: if the row at index \<open>k\<close> is the first row of the payload that is
  not an array, the rows at the indices below \<open>k\<close> remain appended to the container. It
  fails when an earlier row holds a value that does not convert to text: for the payload
  \<^verbatim>\<open>[[{"toString": 1}], 5]\<close> the first row that is not an array is at index 1, the row
  at index 0 is an array, and the assignment to \<^verbatim>\<open>innerText\<close> throws while that row is
  built, so the container is left without it.
\<close>

theorem earlier_row_lost_before_malformed_row:
  "is_array (JArr [shadowing_object])
   \<and> \<not> is_array (JNum 5 :: nat json)
   \<and> outcome (run decimal
        (answers \<lparr>status = 200, parsed = Some (JArr [JArr [shadowing_object], JNum 5])\<rparr>)
        (page_with empty_table)) = Inl NoPrimitive
   \<and> container (run decimal
        (answers \<lparr>status = 200, parsed = Some (JArr [JArr [shadowing_object], JNum 5])\<rparr>)
        (page_with empty_table)) = Some (Element ''table'' [])"
  by (simp add: run_unfold)

text \<open>
  Claim C9, amended. Rendering is not atomic with respect to malformed rows: if the row at
  index \<open>k\<close> is the first row of the payload that is not an array (the rows before it,
  \<open>pre\<close>, are arrays and \<open>k\<close> is their number), the run fails with an unhandled
  error, whether the container is present or not. With the container present, no row
  element is appended for the index \<open>k\<close> or any later index, and the rows that remain
  appended to the container are those before the first row holding a value that does not
  convert to text; when every value of the rows below \<open>k\<close> converts, as every scalar
  does, they are all the rows at the indices below \<open>k\<close>, and the error is that of
  calling \<^verbatim>\<open>forEach\<close> on the row at index \<open>k\<close>. Without the container nothing is
  appended and the page is left as it was.
\<close>

theorem malformed_row_keeps_earlier_rows:
  assumes "net (fetch_request ''/data'') = Some res"
    and "parsed res = Some (JArr (map JArr pre @ bad # post))"
    and "\<not> is_array bad"
  shows "isl (outcome (run nts net p))
         \<and> (\<forall>t. p ''ranking'' = Some t \<longrightarrow>
               container (run nts net p) =
                 Some (Element (tag t)
                        (kids t @ map (spec_row nts) (takeWhile (row_converts nts) pre)))
               \<and> (list_all (row_converts nts) pre \<longrightarrow>
                    outcome (run nts net p) = Inl NoForEach
                    \<and> container (run nts net p) =
                        Some (Element (tag t) (kids t @ map (spec_row nts) pre))))
         \<and> (p ''ranking'' = None \<longrightarrow> page (snd (run nts net p)) = p)"
proof -
  let ?kept = "takeWhile (row_converts nts) pre"
  let ?lost = "dropWhile (row_converts nts) pre"
  have bad: "rows_loop nts (bad # post) tbl = (Inl NoForEach, tbl)" for tbl
    using assms(3) by (cases bad) simp_all
  have run: "run nts net p = render nts (JArr (map JArr pre @ bad # post))
               \<lparr>page = p, sent = [fetch_request ''/data'']\<rparr>"
    using assms(1,2) by (rule run_json)
  have kept: "list_all (row_converts nts) ?kept"
    by (simp add: list_all_iff) (meson set_takeWhileD)
  have split: "map JArr pre @ bad # post = map JArr ?kept @ (map JArr ?lost @ bad # post)"
    by (simp flip: map_append)
  have stop: "\<exists>e. rows_loop nts (map JArr ?lost @ bad # post) tbl = (Inl e, tbl)
      \<and> (list_all (row_converts nts) pre \<longrightarrow> e = NoForEach)" for tbl
  proof (cases ?lost)
    case Nil
    then show ?thesis by (simp only: list.map append_Nil bad) simp
  next
    case (Cons r rs)
    then have r: "\<not> row_converts nts r"
      by (metis hd_dropWhile list.sel(1) list.simps(3))
    then have "\<not> list_all (row_converts nts) pre"
      using Cons by (metis dropWhile_eq_Nil_conv list.simps(3) list_all_iff)
    then show ?thesis
      using Cons r by (simp add: cells_loop_throws)
  qed
  have present: "\<exists>e. rows_loop nts (map JArr pre @ bad # post) (Some t) =
        (Inl e, Some (Element (tag t) (kids t @ map (spec_row nts) ?kept)))
      \<and> (list_all (row_converts nts) pre \<longrightarrow> e = NoForEach)" for t
    using stop [of "Some (Element (tag t) (kids t @ map (spec_row nts) ?kept))"]
    by (simp only: split rows_loop_prefix [OF kept])
  have all: "?kept = pre" if "list_all (row_converts nts) pre"
    using that by (simp add: list_all_iff)
  have with_table: "container (run nts net p) =
        Some (Element (tag t) (kids t @ map (spec_row nts) ?kept))
      \<and> isl (outcome (run nts net p))
      \<and> (list_all (row_converts nts) pre \<longrightarrow>
            outcome (run nts net p) = Inl NoForEach
            \<and> container (run nts net p) = Some (Element (tag t) (kids t @ map (spec_row nts) pre)))"
    if t: "p ''ranking'' = Some t" for t
  proof -
    obtain e where e: "rows_loop nts (map JArr pre @ bad # post) (Some t) =
        (Inl e, Some (Element (tag t) (kids t @ map (spec_row nts) ?kept)))"
      "list_all (row_converts nts) pre \<longrightarrow> e = NoForEach"
      using present by blast
    have c: "container (run nts net p) = Some (Element (tag t) (kids t @ map (spec_row nts) ?kept))"
      and o: "outcome (run nts net p) = Inl e"
      using t e(1) by (simp_all add: run render_array outcome_def container_def)
    have "container (run nts net p) = Some (Element (tag t) (kids t @ map (spec_row nts) pre))"
      if "list_all (row_converts nts) pre"
      using c all [OF that] by simp
    then show ?thesis using c o e(2) by auto
  qed
  have without_table: "isl (outcome (run nts net p)) \<and> page (snd (run nts net p)) = p"
    if none: "p ''ranking'' = None"
  proof -
    have null: "rows_loop nts (map JArr pre @ bad # post) None =
        (case map JArr pre @ bad # post of
           [] \<Rightarrow> Inr ()
         | JArr cells # rest \<Rightarrow> if row_converts nts cells then Inl TableIsNull else Inl NoPrimitive
         | _ \<Rightarrow> Inl NoForEach, None)"
      by (rule rows_loop_null_table)
    have same: "p(''ranking'' := None) = p"
      using none by (rule fun_upd_idem)
    have "isl (outcome (run nts net p))"
      using none null
      by (simp add: run render_array outcome_def split: list.splits json.splits)
    moreover have "page (snd (run nts net p)) = p"
      using none null same by (simp add: run render_array)
    ultimately show ?thesis by simp
  qed
  have "isl (outcome (run nts net p))"
  proof (cases "p ''ranking''")
    case None
    then show ?thesis using without_table by simp
  next
    case (Some t)
    then show ?thesis using with_table by blast
  qed
  then show ?thesis using with_table without_table by blast
qed

theorem malformed_row_keeps_earlier_rows_witness:
  "answers \<lparr>status = 200, parsed = Some (JArr (map JArr alice_bob @ JStr ''Carol'' # [JArr []]))\<rparr>
       (fetch_request ''/data'')
     = Some \<lparr>status = 200, parsed = Some (JArr (map JArr alice_bob @ JStr ''Carol'' # [JArr []]))\<rparr>
   \<and> \<not> is_array (JStr ''Carol'' :: nat json)
   \<and> page_with table_with_header ''ranking'' = Some table_with_header
   \<and> list_all (row_converts decimal) alice_bob
   \<and> isl (outcome (run decimal
        (answers \<lparr>status = 200, parsed = Some (JArr (map JArr alice_bob @ JStr ''Carol'' # [JArr []]))\<rparr>)
        (page_with table_with_header)))
   \<and> outcome (run decimal
        (answers \<lparr>status = 200, parsed = Some (JArr (map JArr alice_bob @ JStr ''Carol'' # [JArr []]))\<rparr>)
        (page_with table_with_header)) = Inl NoForEach
   \<and> container (run decimal
        (answers \<lparr>status = 200, parsed = Some (JArr (map JArr alice_bob @ JStr ''Carol'' # [JArr []]))\<rparr>)
        (page_with table_with_header))
       = Some (Element (tag table_with_header)
                (kids table_with_header @ map (spec_row decimal) alice_bob))"
proof -
  let ?res = "\<lparr>status = 200,
      parsed = Some (JArr (map JArr alice_bob @ JStr ''Carol'' # [JArr []]))\<rparr>"
  have h1: "answers ?res (fetch_request ''/data'') = Some ?res"
    by (simp add: answers_def)
  have h2: "parsed ?res = Some (JArr (map JArr alice_bob @ JStr ''Carol'' # [JArr []]))"
    by simp
  have h3: "\<not> is_array (JStr ''Carol'' :: nat json)"
    by simp
  have h4: "page_with table_with_header ''ranking'' = Some table_with_header"
    by (simp add: page_with_def)
  have h5: "list_all (row_converts decimal) alice_bob"
    by (simp add: alice_bob_def row_converts_def converts_def innerText_string_def)
  from malformed_row_keeps_earlier_rows [where net = "answers ?res" and res = ?res
      and pre = alice_bob and bad = "JStr ''Carol''" and post = "[JArr []]"
      and p = "page_with table_with_header" and nts = decimal, OF h1 h2 h3]
    h1 h3 h4 h5
  show ?thesis
    by blast
qed

section \<open>Determinism\<close>

text \<open>
  Claim C10. The renderer is deterministic: two runs given the same parsed payload and the
  same initial container, whatever else differs between them (the status of the response,
  the rest of the network, the other elements of the page), end with the same result and
  the same container, hence the same rows, the same cells in each row and the same text in
  each cell, in order.
\<close>

theorem same_payload_same_container:
  assumes "net1 (fetch_request ''/data'') = Some res1"
    and "net2 (fetch_request ''/data'') = Some res2"
    and "parsed res1 = parsed res2"
    and "p1 ''ranking'' = p2 ''ranking''"
  shows "outcome (run nts net1 p1) = outcome (run nts net2 p2)
         \<and> container (run nts net1 p1) = container (run nts net2 p2)
         \<and> cell_texts (run nts net1 p1) = cell_texts (run nts net2 p2)"
proof -
  have "outcome (run nts net1 p1) = outcome (run nts net2 p2)
         \<and> container (run nts net1 p1) = container (run nts net2 p2)"
  proof (cases "parsed res1")
    case None
    then show ?thesis using assms by (simp add: run_not_json outcome_def container_def)
  next
    case (Some data)
    then have "parsed res2 = Some data" using assms(3) by simp
    show ?thesis
    proof (cases "is_array data")
      case True
      then obtain rows where "data = JArr rows" by (cases data) simp_all
      then show ?thesis
        using assms(1,2,4) Some \<open>parsed res2 = Some data\<close>
        by (simp add: run_json render_array outcome_def container_def)
    next
      case False
      then show ?thesis
        using assms(1,2,4) Some \<open>parsed res2 = Some data\<close>
        by (simp add: run_json render_not_array outcome_def container_def)
    qed
  qed
  then show ?thesis by (simp add: cell_texts_def)
qed

theorem same_payload_same_container_witness:
  "answers \<lparr>status = 200, parsed = Some (JArr (map JArr alice_bob))\<rparr> (fetch_request ''/data'')
     = Some \<lparr>status = 200, parsed = Some (JArr (map JArr alice_bob))\<rparr>
   \<and> answers \<lparr>status = 203, parsed = Some (JArr (map JArr alice_bob))\<rparr> (fetch_request ''/data'')
     = Some \<lparr>status = 203, parsed = Some (JArr (map JArr alice_bob))\<rparr>
   \<and> page_with table_with_header ''ranking''
     = ((page_with table_with_header)(''footer'' \<mapsto> Element ''div'' [])) ''ranking''
   \<and> outcome (run decimal (answers \<lparr>status = 200, parsed = Some (JArr (map JArr alice_bob))\<rparr>)
        (page_with table_with_header))
     = outcome (run decimal (answers \<lparr>status = 203, parsed = Some (JArr (map JArr alice_bob))\<rparr>)
        ((page_with table_with_header)(''footer'' \<mapsto> Element ''div'' [])))
   \<and> container (run decimal (answers \<lparr>status = 200, parsed = Some (JArr (map JArr alice_bob))\<rparr>)
        (page_with table_with_header))
     = container (run decimal (answers \<lparr>status = 203, parsed = Some (JArr (map JArr alice_bob))\<rparr>)
        ((page_with table_with_header)(''footer'' \<mapsto> Element ''div'' [])))
   \<and> cell_texts (run decimal (answers \<lparr>status = 200, parsed = Some (JArr (map JArr alice_bob))\<rparr>)
        (page_with table_with_header))
     = cell_texts (run decimal (answers \<lparr>status = 203, parsed = Some (JArr (map JArr alice_bob))\<rparr>)
        ((page_with table_with_header)(''footer'' \<mapsto> Element ''div'' [])))"
proof -
  let ?r1 = "\<lparr>status = 200, parsed = Some (JArr (map JArr alice_bob))\<rparr>"
  let ?r2 = "\<lparr>status = 203, parsed = Some (JArr (map JArr alice_bob))\<rparr>"
  let ?p1 = "page_with table_with_header"
  let ?p2 = "(page_with table_with_header)(''footer'' \<mapsto> Element ''div'' [])"
  have h1: "answers ?r1 (fetch_request ''/data'') = Some ?r1"
    by (simp add: answers_def)
  have h2: "answers ?r2 (fetch_request ''/data'') = Some ?r2"
    by (simp add: answers_def)
  have h3: "parsed ?r1 = parsed ?r2"
    by simp
  have h4: "?p1 ''ranking'' = ?p2 ''ranking''"
    by simp
  from same_payload_same_container [where ?net1.0 = "answers ?r1" and ?net2.0 = "answers ?r2"
      and ?res1.0 = ?r1 and ?res2.0 = ?r2 and ?p1.0 = ?p1 and ?p2.0 = ?p2 and nts = decimal,
      OF h1 h2 h3 h4] h1 h2 h4
  show ?thesis
    by blast
qed

end
